theory Spec2Isabelle
  imports Main "HOL-Library.Char_ord" "HOL-Library.List_Lexorder"
begin

section \<open>Go values and run-time failures\<close>

text \<open>
  A Go \<open>string\<close> is a sequence of bytes and is modelled as \<open>string\<close> (a list of 8-bit
  \<open>char\<close>). Go compares strings bytewise and lexicographically, a proper prefix being
  smaller; this is the order that \<open>Char_ord\<close> and \<open>List_Lexorder\<close> put on \<open>char list\<close>.

  An \<open>error\<close> is either a value built by \<open>errors.New\<close> (or handed back by a collaborator),
  carrying its message, or one of the two run-time panics the modelled code could raise.
\<close>

datatype error =
    ErrorsNew string
  | PanicNilDereference
  | PanicSliceBounds

text \<open>
  The method \<open>Error()\<close> of an error value, and whether the value is a run-time panic. (For
  a slice out of range Go appends the index and the bound to the message.)
\<close>

fun Error_msg :: "error \<Rightarrow> string" where
  "Error_msg (ErrorsNew m) = m"
| "Error_msg PanicNilDereference =
     ''runtime error: invalid memory address or nil pointer dereference''"
| "Error_msg PanicSliceBounds = ''runtime error: slice bounds out of range''"

fun isPanic :: "error \<Rightarrow> bool" where
  "isPanic (ErrorsNew m) = False"
| "isPanic PanicNilDereference = True"
| "isPanic PanicSliceBounds = True"

text \<open>
  The slice expressions \<open>s[:i]\<close> and \<open>s[i:]\<close>. Go panics when the index is out of range.
  For \<open>s[:i]\<close> Go's bound is the capacity of \<open>s\<close>; the model uses the length, which is
  never larger, so the model panics wherever Go does.
\<close>

definition slice_to :: "'a list \<Rightarrow> nat \<Rightarrow> error + 'a list" where
  "slice_to s i = (if i \<le> length s then Inr (take i s) else Inl PanicSliceBounds)"

definition slice_from :: "'a list \<Rightarrow> nat \<Rightarrow> error + 'a list" where
  "slice_from s i = (if i \<le> length s then Inr (drop i s) else Inl PanicSliceBounds)"

section \<open>The Go standard library, as far as cmd/launch-cloud.go uses it\<close>

text \<open>
  The two character classes of the disk-size loop, \<open>r >= 'A' && r <= 'Z'\<close> and
  \<open>r >= '0' && r <= '9'\<close>. Both are classes of ASCII bytes.
\<close>

definition isUpper :: "char \<Rightarrow> bool" where
  "isUpper r \<longleftrightarrow> r \<ge> CHR ''A'' \<and> r \<le> CHR ''Z''"

definition isDigit :: "char \<Rightarrow> bool" where
  "isDigit r \<longleftrightarrow> r \<ge> CHR ''0'' \<and> r \<le> CHR ''9''"

text \<open>
  \<open>strconv.Atoi\<close> for a 64-bit \<open>int\<close> (the two host architectures that \<open>launchCloud\<close>
  accepts are 64-bit): an optional sign, then at least one decimal digit and nothing else,
  and a value in \<open>[-2\<^sup>6\<^sup>3, 2\<^sup>6\<^sup>3 - 1]\<close>. \<open>None\<close> is the error return.
\<close>

definition decimal :: "string \<Rightarrow> int" where
  "decimal ds = foldl (\<lambda>n ch. n * 10 + (of_char ch - 48)) 0 ds"

fun Atoi_sign :: "string \<Rightarrow> bool \<times> string" where
  "Atoi_sign [] = (False, [])"
| "Atoi_sign (c # cs) =
     (if c = CHR ''-'' then (True, cs)
      else if c = CHR ''+'' then (False, cs)
      else (False, c # cs))"

definition Atoi :: "string \<Rightarrow> int option" where
  "Atoi s =
     (case Atoi_sign s of (neg, ds) \<Rightarrow>
        if ds = [] \<or> \<not> list_all isDigit ds then None
        else if neg then (if decimal ds \<le> 2 ^ 63 then Some (- decimal ds) else None)
        else (if decimal ds < 2 ^ 63 then Some (decimal ds) else None))"

text \<open>
  Decimal printing: \<open>utod\<close> prints a natural number, \<open>strconv.Itoa\<close> an \<open>int\<close>, and
  \<open>appendInt\<close> (package \<open>time\<close>) an \<open>int\<close> padded with zeros to a minimum width.
\<close>

fun utod :: "nat \<Rightarrow> string" where
  "utod n = (if n < 10 then [''0123456789'' ! n]
             else utod (n div 10) @ [''0123456789'' ! (n mod 10)])"

declare utod.simps [simp del]

definition Itoa :: "int \<Rightarrow> string" where
  "Itoa i = (if i < 0 then CHR ''-'' # utod (nat (- i)) else utod (nat i))"

definition appendInt :: "int \<Rightarrow> nat \<Rightarrow> string" where
  "appendInt x width =
     (if x < 0 then ''-'' else []) @
     replicate (width - length (utod (nat \<bar>x\<bar>))) CHR ''0'' @ utod (nat \<bar>x\<bar>)"

text \<open>
  A \<open>time.Time\<close> is an instant, in seconds since the Unix epoch, together with the offset
  (seconds east of UTC) that its location has at that instant. \<open>time.Now()\<close> returns the
  current instant in the location \<open>Local\<close>, so its offset is the host's zone offset;
  the method \<open>UTC()\<close> returns the same instant with offset zero.
\<close>

record gotime =
  unixSec :: int
  zoneOffset :: int

definition UTC :: "gotime \<Rightarrow> gotime" where
  "UTC t = t\<lparr>zoneOffset := 0\<rparr>"

text \<open>
  The date (year, month, day) of the proleptic Gregorian calendar that lies the given number
  of days after 1970-01-01.
\<close>

definition civil :: "int \<Rightarrow> int \<times> int \<times> int" where
  "civil days =
     (let z = days + 719468;
          era = z div 146097;
          doe = z mod 146097;
          yoe = (doe - doe div 1460 + doe div 36524 - doe div 146096) div 365;
          doy = doe - (365 * yoe + yoe div 4 - yoe div 100);
          mp = (5 * doy + 2) div 153;
          d = doy - (153 * mp + 2) div 5 + 1;
          m = (if mp < 10 then mp + 3 else mp - 9);
          y = yoe + era * 400 + (if m \<le> 2 then 1 else 0)
      in (y, m, d))"

text \<open>
  \<open>t.Format("2006-01-02_15-04-05")\<close>: year (four digits), month, day, hour, minute and
  second (two digits each) of \<open>t\<close> as a wall clock in the location of \<open>t\<close> shows them.
\<close>

definition Format_stamp :: "gotime \<Rightarrow> string" where
  "Format_stamp t =
     (let abs = unixSec t + zoneOffset t;
          secs = abs mod 86400
      in case civil (abs div 86400) of (year, month, day) \<Rightarrow>
           appendInt year 4 @ ''-'' @ appendInt month 2 @ ''-'' @ appendInt day 2 @ ''_'' @
           appendInt (secs div 3600) 2 @ ''-'' @ appendInt (secs mod 3600 div 60) 2 @ ''-'' @
           appendInt (secs mod 60) 2)"

text \<open>
  \<open>strings.ReplaceAll(s, old, new)\<close> where \<open>old\<close> and \<open>new\<close> are one byte each, as in the
  only call, \<open>strings.ReplaceAll(alias, " ", "_")\<close>.
\<close>

definition ReplaceAll_char :: "string \<Rightarrow> char \<Rightarrow> char \<Rightarrow> string" where
  "ReplaceAll_char s old new = map (\<lambda>c. if c = old then new else c) s"

text \<open>
  \<open>filepath.Join\<close> on a Unix host: the non-empty elements are joined with a slash and the
  result is passed to \<open>filepath.Clean\<close>, which drops empty and \<open>.\<close> elements and resolves
  \<open>..\<close> lexically; if no element is non-empty the result is the empty string.
\<close>

fun strings_Join :: "string list \<Rightarrow> string \<Rightarrow> string" where
  "strings_Join [] sep = []"
| "strings_Join [x] sep = x"
| "strings_Join (x # y # r) sep = x @ sep @ strings_Join (y # r) sep"

fun splitSlash :: "string \<Rightarrow> string \<Rightarrow> string list" where
  "splitSlash cur [] = [cur]"
| "splitSlash cur (c # cs) =
     (if c = CHR ''/'' then cur # splitSlash [] cs else splitSlash (cur @ [c]) cs)"

fun cleanElems :: "bool \<Rightarrow> string list \<Rightarrow> string list \<Rightarrow> string list" where
  "cleanElems rooted out [] = out"
| "cleanElems rooted out (c # cs) =
     (if c = [] \<or> c = ''.'' then cleanElems rooted out cs
      else if c = ''..'' then
        (if out \<noteq> [] \<and> last out \<noteq> ''..'' then cleanElems rooted (butlast out) cs
         else if rooted then cleanElems rooted out cs
         else cleanElems rooted (out @ [c]) cs)
      else cleanElems rooted (out @ [c]) cs)"

definition Clean :: "string \<Rightarrow> string" where
  "Clean path =
     (case path of
        [] \<Rightarrow> ''.''
      | c # cs \<Rightarrow>
          (let rooted = (c = CHR ''/'');
               out = cleanElems rooted [] (splitSlash [] path)
           in if out = [] then (if rooted then ''/'' else ''.'')
              else (if rooted then ''/'' else []) @ strings_Join out ''/''))"

definition Join :: "string list \<Rightarrow> string" where
  "Join elem =
     (if filter (\<lambda>e. e \<noteq> []) elem = [] then []
      else Clean (strings_Join (filter (\<lambda>e. e \<noteq> []) elem) ''/''))"



section \<open>cmd/tag.go\<close>

text \<open>
  \<open>find\<close> (tag.go, lines 79-88). The \<open>range\<close> loop is \<open>find_range\<close>: \<open>i\<close> is the loop
  index and the last argument holds the elements not yet visited. The constant is named
  \<open>find_tag\<close> because \<open>find\<close> is a constant of the HOL list library.
\<close>

fun find_range :: "string list \<Rightarrow> string \<Rightarrow> nat \<Rightarrow> string list \<Rightarrow> nat \<times> bool" where
  "find_range s t i [] = (length s, False)"
| "find_range s t i (e # es) =
     (if e = t then (i, True)
      else if e > t then (i, False)
      else find_range s t (Suc i) es)"

definition find_tag :: "string list \<Rightarrow> string \<Rightarrow> nat \<times> bool" where
  "find_tag s t = find_range s t 0 s"

text \<open>
  The body of the loop of \<open>macpineTag\<close> (tag.go, lines 59-64) for one \<open>tag\<close>; \<open>remove\<close> is
  the package-level flag. \<open>append(Tags[:i], Tags[i+1:]...)\<close> shifts the tail down in place
  and \<open>append(Tags[:i], append([]string{tag}, Tags[i:]...)...)\<close> copies the tail before the
  outer \<open>append\<close> writes, so both are the concatenations below.
\<close>

definition tagStep :: "bool \<Rightarrow> string list \<Rightarrow> string \<Rightarrow> error + string list" where
  "tagStep remove Tags tag =
     (case find_tag Tags tag of (i, found) \<Rightarrow>
        if remove \<and> found then
          (case slice_to Tags i of
             Inl e \<Rightarrow> Inl e
           | Inr a \<Rightarrow>
               (case slice_from Tags (i + 1) of
                  Inl e \<Rightarrow> Inl e
                | Inr b \<Rightarrow> Inr (a @ b)))
        else if \<not> remove \<and> \<not> found then
          (case slice_to Tags i of
             Inl e \<Rightarrow> Inl e
           | Inr a \<Rightarrow>
               (case slice_from Tags i of
                  Inl e \<Rightarrow> Inl e
                | Inr b \<Rightarrow> Inr (a @ ([tag] @ b))))
        else Inr Tags)"

text \<open>The loop \<open>for _, tag := range(tags)\<close> of \<open>macpineTag\<close> (tag.go, lines 58-65).\<close>

fun macpineTag_loop :: "bool \<Rightarrow> string list \<Rightarrow> string list \<Rightarrow> error + string list" where
  "macpineTag_loop remove Tags [] = Inr Tags"
| "macpineTag_loop remove Tags (tag # tags) =
     (case tagStep remove Tags tag of
        Inl e \<Rightarrow> Inl e
      | Inr Tags' \<Rightarrow> macpineTag_loop remove Tags' tags)"

section \<open>cmd/launch-cloud.go\<close>

text \<open>
  The fields of \<open>qemu.MachineConfig\<close> that \<open>launchCloud\<close> sets. \<open>RootPassword\<close> is a
  pointer to a string in the source.
\<close>

record MachineConfig =
  Alias :: string
  Image :: string
  Arch :: string
  CPU :: string
  Memory :: string
  Disk :: string
  Mount :: string
  MachineIP :: string
  Port :: string
  SSHPort :: string
  MACAddress :: string
  VMNet :: bool
  SSHUser :: string
  SSHPassword :: string
  RootUsername :: string
  RootPassword :: "string option"
  CloudInit :: string
  Tags :: "string list"
  Location :: string

text \<open>
  What the code can observe of \<open>os.Stat(path)\<close>: the error satisfies \<open>os.IsNotExist\<close>; there
  is another error (the returned \<open>FileInfo\<close> is then \<open>nil\<close>); or there is no error and
  \<open>IsDir()\<close> is true or false.
\<close>

datatype stat_result = StatNotExist | StatOtherError | StatDir | StatFile

text \<open>
  The host and the collaborators of the command, which are not part of the two source files
  and are taken as parameters: \<open>runtime.GOARCH\<close>, \<open>os.UserHomeDir\<close>, \<open>os.Stat\<close>,
  \<open>utils.ParsePort\<close> (only its error is used), \<open>host.ListVMNames\<close>,
  \<open>utils.GenerateRandomAlias\<close> (the argument counts the calls made so far),
  \<open>utils.GenerateMACAddress\<close>, \<open>host.Launch\<close>, the method \<open>GetInstancePID\<close> (its error
  is discarded by the caller) and \<open>time.Now\<close>.
\<close>

record env =
  GOARCH :: string
  UserHomeDir :: "error + string"
  Stat :: "string \<Rightarrow> stat_result"
  ParsePort :: "string \<Rightarrow> error option"
  ListVMNames :: "string list"
  GenerateRandomAlias :: "nat \<Rightarrow> string"
  GenerateMACAddress :: "error + string"
  Launch :: "MachineConfig \<Rightarrow> error option"
  GetInstancePID :: "MachineConfig \<Rightarrow> int"
  Now :: gotime

text \<open>
  The package-level variables that \<open>launchCloud\<close> and \<open>CorrectArgumentsCloud\<close> read and
  write. The first eleven are declared in launch-cloud.go (lines 30-33) and are the ones the
  flags of the command are bound to (lines 40-50). The last three, \<open>machineArch\<close>,
  \<open>machineName\<close> and \<open>machineMount\<close>, are used by launch-cloud.go (lines 107-111, 130-137,
  145-151) but are declared elsewhere in the package; no flag of this command is bound to
  them.
\<close>

record globals =
  imageVersionCloud :: string
  machineArchCloud :: string
  machineCPUCloud :: string
  machineMemoryCloud :: string
  machineDiskCloud :: string
  machinePortCloud :: string
  sshPortCloud :: string
  machineNameCloud :: string
  machineMountCloud :: string
  vmnetCloud :: bool
  cloudInitCloud :: string
  machineArch :: string
  machineName :: string
  machineMount :: string

text \<open>
  The values the flags have when the command line gives none of them
  (\<open>includeLaunchCloudFlags\<close>, lines 40-50). The three variables declared elsewhere are
  taken to hold the empty string, Go's zero value of a string variable; the command line of
  this command cannot set them.
\<close>

definition flagDefaults :: globals where
  "flagDefaults =
     \<lparr>imageVersionCloud = ''alpine_3.20.3'',
      machineArchCloud = [],
      machineCPUCloud = ''2'',
      machineMemoryCloud = ''2048'',
      machineDiskCloud = ''5G'',
      machinePortCloud = [],
      sshPortCloud = ''22'',
      machineNameCloud = [],
      machineMountCloud = [],
      vmnetCloud = False,
      cloudInitCloud = [],
      machineArch = [],
      machineName = [],
      machineMount = []\<rparr>"

text \<open>
  Modelled from the spec: \<open>utils.StringSliceContains\<close>, which is not among the source files.
  The spec uses it as membership: the suffix "must be one of" the listed strings, and the
  alias must be "not present in the current instance list".
\<close>

definition StringSliceContains :: "string list \<Rightarrow> string \<Rightarrow> bool" where
  "StringSliceContains xs x \<longleftrightarrow> x \<in> set xs"

text \<open>
  \<open>CorrectArgumentsCloud\<close> (lines 55-116). The loop over \<open>machineDisk\<close> (lines 78-86) is
  \<open>diskLoop\<close>, with the two slices \<open>l\<close> and \<open>n\<close> as its state. Go's \<open>range\<close> decodes the
  string into runes; every rune outside ASCII is made of bytes outside ASCII and falls into
  neither case of the \<open>switch\<close>, so running over the bytes collects the same \<open>l\<close> and \<open>n\<close>.
  \<open>atoiBelow s b\<close> is the test \<open>err != nil || int < b\<close> after \<open>int, err := strconv.Atoi(s)\<close>.
  \<open>checkDisk\<close> is lines 78-95 and \<open>checkMount\<close> is lines 107-113; in the latter,
  \<open>dir.IsDir()\<close> on a \<open>nil\<close> \<open>FileInfo\<close> is a nil dereference.
\<close>

fun diskLoop :: "string \<Rightarrow> string \<times> string \<Rightarrow> string \<times> string" where
  "diskLoop [] (l, n) = (l, n)"
| "diskLoop (r # rs) (l, n) =
     (if r \<ge> CHR ''A'' \<and> r \<le> CHR ''Z'' then diskLoop rs (l @ [r], n)
      else if r \<ge> CHR ''0'' \<and> r \<le> CHR ''9'' then diskLoop rs (l, n @ [r])
      else diskLoop rs (l, n))"

definition atoiBelow :: "string \<Rightarrow> int \<Rightarrow> bool" where
  "atoiBelow s bound = (case Atoi s of None \<Rightarrow> True | Some i \<Rightarrow> i < bound)"

definition checkDisk :: "string \<Rightarrow> error option" where
  "checkDisk machineDisk =
     (case diskLoop machineDisk ([], []) of (l, n) \<Rightarrow>
        if atoiBelow n 0 then
          Some (ErrorsNew
            ''disk size (-d) must be a positive integer optionally followed by K, M, or G'')
        else if \<not> StringSliceContains [[], ''K'', ''M'', ''G''] l then
          Some (ErrorsNew ''disk size suffix must be K, M, or G'')
        else None)"

definition checkMount :: "globals \<Rightarrow> env \<Rightarrow> error option" where
  "checkMount g e =
     (if machineMount g \<noteq> [] then
        (case Stat e (machineMount g) of
           StatNotExist \<Rightarrow>
             Some (ErrorsNew (''mount target '' @ machineMount g @ '' does not exist''))
         | StatOtherError \<Rightarrow> Some PanicNilDereference
         | StatFile \<Rightarrow>
             Some (ErrorsNew (''mount target '' @ machineMount g @ '' is not a directory''))
         | StatDir \<Rightarrow> None)
      else None)"

definition CorrectArgumentsCloud ::
  "globals \<Rightarrow> env \<Rightarrow> string \<Rightarrow> string \<Rightarrow> string \<Rightarrow> string \<Rightarrow> string \<Rightarrow> string \<Rightarrow> string \<Rightarrow>
   error option" where
  "CorrectArgumentsCloud g e imageVersion machineArch_arg machineCPU machineMemory machineDisk
       sshPort machinePort =
     (if machineArch_arg \<noteq> [] \<and> machineArch_arg \<noteq> ''aarch64'' \<and> machineArch_arg \<noteq> ''x86_64''
      then Some (ErrorsNew ''unsupported guest architecture. use x86_64 or aarch64'')
      else if atoiBelow machineCPU 0
      then Some (ErrorsNew ''number of cpus (-c) must be a positive integer'')
      else if atoiBelow machineMemory 256
      then Some (ErrorsNew ''memory (-m) must be a positive integer greater than 256'')
      else
        (case checkDisk machineDisk of
           Some err \<Rightarrow> Some err
         | None \<Rightarrow>
             if atoiBelow sshPort 0
             then Some (ErrorsNew ''ssh port (-s) must be a positive integer'')
             else
               (case ParsePort e machinePort of
                  Some err \<Rightarrow> Some err
                | None \<Rightarrow> checkMount g e)))"

text \<open>
  \<open>launchCloud\<close> (lines 118-211), in the order of the source. \<open>hostArch\<close> is lines 130-141
  and \<open>instanceName\<close> lines 145-152; both read and assign package-level variables, so they
  return the updated variables, or the message of \<open>log.Fatal\<close>. The loop
  \<open>for utils.StringSliceContains(vmList, machineName)\<close> runs as long as the generator
  returns names in use, which may be forever: \<open>randomAlias\<close> is then \<open>None\<close>.
\<close>

definition hostArch :: "globals \<Rightarrow> env \<Rightarrow> string + globals" where
  "hostArch g e =
     (if machineArch g = [] then
        (if GOARCH e = ''arm64'' then Inr (g\<lparr>machineArch := ''aarch64''\<rparr>)
         else if GOARCH e = ''amd64'' then Inr (g\<lparr>machineArch := ''x86_64''\<rparr>)
         else Inl (''unsupported host architecture: '' @ GOARCH e))
      else Inr g)"

partial_function (option) randomAlias :: "env \<Rightarrow> string list \<Rightarrow> nat \<Rightarrow> string option" where
  "randomAlias e vmList k =
     (if StringSliceContains vmList (GenerateRandomAlias e k)
      then randomAlias e vmList (Suc k)
      else Some (GenerateRandomAlias e k))"

declare randomAlias.simps [code]

definition instanceName :: "globals \<Rightarrow> env \<Rightarrow> string list \<Rightarrow> (string + globals) option" where
  "instanceName g e vmList =
     (if machineName g = [] then
        (case randomAlias e vmList 0 of
           None \<Rightarrow> None
         | Some alias \<Rightarrow> Some (Inr (g\<lparr>machineName := alias\<rparr>)))
      else if StringSliceContains vmList (machineName g) then
        Some (Inl (''instance with name \"'' @ machineName g @ ''\" already exists''))
      else Some (Inr g))"

text \<open>Lines 161-188: the firmware type and the configuration record.\<close>

definition machineType :: "globals \<Rightarrow> string" where
  "machineType g = (if machineArchCloud g = ''aarch64'' then ''uefi'' else ''bios'')"

definition machineConfig :: "globals \<Rightarrow> string \<Rightarrow> string \<Rightarrow> MachineConfig" where
  "machineConfig g userHomeDir macAddress =
     \<lparr>Alias = machineNameCloud g,
      Image = ''nocloud_alpine-'' @ imageVersionCloud g @ ''-'' @ machineArchCloud g @ ''-'' @
              machineType g @ ''-cloudinit-r0.qcow2'',
      Arch = machineArchCloud g,
      CPU = machineCPUCloud g,
      Memory = machineMemoryCloud g,
      Disk = machineDiskCloud g,
      Mount = machineMountCloud g,
      MachineIP = ''localhost'',
      Port = machinePortCloud g,
      SSHPort = sshPortCloud g,
      MACAddress = macAddress,
      VMNet = vmnetCloud g,
      SSHUser = ''alpine'',
      SSHPassword = ''raw::root'',
      RootUsername = ''alpine'',
      RootPassword = Some ''root'',
      CloudInit = cloudInitCloud g,
      Tags = [],
      Location = Join [userHomeDir, ''.macpine'', machineNameCloud g]\<rparr>"

text \<open>
  What a run does to the world, in order: the call of \<open>host.Launch\<close> (which creates the
  instance directory and starts the process), \<open>os.MkdirAll\<close>, \<open>os.Rename\<close>, \<open>os.RemoveAll\<close>,
  \<open>Process.Signal\<close> with the process identifier, \<open>fmt.Println\<close> and \<open>log.Println\<close>. The errors
  of \<open>os.MkdirAll\<close> and \<open>os.Rename\<close> are discarded by the source. A run ends by returning,
  by \<open>log.Fatal\<close> or \<open>log.Fatalln\<close> (the message is logged and the exit status is 1), or by
  a panic.
\<close>

datatype effect =
    HostLaunch MachineConfig
  | MkdirAll string nat
  | Rename string string
  | RemoveAll string
  | Signal int
  | Println string
  | LogPrintln string

datatype outcome = Returned | LogFatal string | Panicked error

text \<open>
  Lines 192-200, the steps after a failed \<open>host.Launch\<close>. \<open>errorLogName\<close> is the value of
  \<open>name\<close> (line 194).
\<close>

definition errorLogName :: "string \<Rightarrow> gotime \<Rightarrow> string" where
  "errorLogName alias now =
     ReplaceAll_char alias CHR '' '' CHR ''_'' @ ''_'' @ Format_stamp now @ ''.log''"

definition launchFailed :: "env \<Rightarrow> string \<Rightarrow> MachineConfig \<Rightarrow> effect list" where
  "launchFailed e userHomeDir cfg =
     (let name = errorLogName (Alias cfg) (Now e);
          pid = GetInstancePID e cfg
      in [MkdirAll (Join [userHomeDir, ''.macpine'', ''cache'', ''.error-logs'']) 493,
          Rename (Join [Location cfg, ''alpine.log''])
                 (Join [userHomeDir, ''.macpine'', ''cache'', ''.error-logs'', name]),
          Println (''logs are in: '' @
                   Join [userHomeDir, ''.macpine'', ''cache'', ''.error-logs'', name]),
          Println ''run this to clean up:'',
          Println (''rm -rf '' @ Join [userHomeDir, ''.macpine'', Alias cfg]),
          Println (''kill '' @ Itoa pid)])"

text \<open>
  The result of \<open>launchCloud\<close> is the list of effects, how the run ended, and the
  package-level variables at that point; \<open>None\<close> when the alias loop does not end.
\<close>

definition launchCloud :: "globals \<Rightarrow> env \<Rightarrow> (effect list \<times> outcome \<times> globals) option" where
  "launchCloud g e =
     (case CorrectArgumentsCloud g e (imageVersionCloud g) (machineArchCloud g)
             (machineCPUCloud g) (machineMemoryCloud g) (machineDiskCloud g) (sshPortCloud g)
             (machinePortCloud g) of
        Some err \<Rightarrow>
          Some ([], if isPanic err then Panicked err else LogFatal (Error_msg err), g)
      | None \<Rightarrow>
     (case UserHomeDir e of
        Inl err \<Rightarrow> Some ([], LogFatal (Error_msg err), g)
      | Inr userHomeDir \<Rightarrow>
     (case hostArch g e of
        Inl msg \<Rightarrow> Some ([], LogFatal msg, g)
      | Inr g1 \<Rightarrow>
     (case instanceName g1 e (ListVMNames e) of
        None \<Rightarrow> None
      | Some (Inl msg) \<Rightarrow> Some ([], LogFatal msg, g1)
      | Some (Inr g2) \<Rightarrow>
     (case GenerateMACAddress e of
        Inl err \<Rightarrow> Some ([], LogFatal (Error_msg err), g2)
      | Inr macAddress \<Rightarrow>
     (case Launch e (machineConfig g2 userHomeDir macAddress) of
        Some err \<Rightarrow>
          Some (HostLaunch (machineConfig g2 userHomeDir macAddress) #
                launchFailed e userHomeDir (machineConfig g2 userHomeDir macAddress),
                LogFatal (Error_msg err), g2)
      | None \<Rightarrow>
          Some ([HostLaunch (machineConfig g2 userHomeDir macAddress),
                 Println [],
                 LogPrintln (''launchClouded: '' @ machineNameCloud g2)],
                Returned, g2)))))))"

text \<open>
  A host on which the model is evaluated: an arm64 machine with one instance, named
  \<open>web\<close>, whose clock reads 1970-01-01 01:00:00 in a zone one hour east of UTC, and on
  which \<open>host.Launch\<close> succeeds. On \<open>failingHost\<close> it fails, at the instant 1700000000
  (2023-11-14 22:13:20 UTC) in a zone eight hours west of UTC, where the wall clock reads
  2023-11-14 14:13:20.
\<close>

definition sampleHost :: env where
  "sampleHost =
     \<lparr>GOARCH = ''arm64'',
      UserHomeDir = Inr ''/Users/u'',
      Stat = (\<lambda>p. if p = ''/Users/u/share'' then StatDir else StatNotExist),
      ParsePort = (\<lambda>p. None),
      ListVMNames = [''web''],
      GenerateRandomAlias = (\<lambda>k. if k = 0 then ''web'' else ''quiet-otter''),
      GenerateMACAddress = Inr ''56:c8:38:5a:1f:07'',
      Launch = (\<lambda>c. None),
      GetInstancePID = (\<lambda>c. 4711),
      Now = \<lparr>unixSec = 0, zoneOffset = 3600\<rparr>\<rparr>"

definition failingHost :: env where
  "failingHost =
     sampleHost\<lparr>Launch := (\<lambda>c. Some (ErrorsNew ''qemu exited'')),
                Now := \<lparr>unixSec = 1700000000, zoneOffset = - 28800\<rparr>\<rparr>"

text \<open>
  The name of the relocated log file as the specification words it, with the time stamp
  taken in UTC; to be compared with \<open>errorLogName\<close>, which is the name the source builds.
\<close>

definition errorLogNameUTC :: "string \<Rightarrow> gotime \<Rightarrow> string" where
  "errorLogNameUTC alias now =
     ReplaceAll_char alias CHR '' '' CHR ''_'' @ ''_'' @ Format_stamp (UTC now) @ ''.log''"




section \<open>Properties of the tag editor\<close>

lemma find_range_takeWhile:
  "i + length es = length s \<Longrightarrow>
   find_range s t i es =
     (i + length (takeWhile (\<lambda>e. e < t) es),
      length (takeWhile (\<lambda>e. e < t) es) < length es \<and> es ! length (takeWhile (\<lambda>e. e < t) es) = t)"
proof (induction es arbitrary: i)
  case Nil
  then show ?case by simp
next
  case (Cons e es)
  then show ?case by (auto simp: not_less)
qed

lemma find_tag_takeWhile:
  "find_tag s t =
     (length (takeWhile (\<lambda>e. e < t) s),
      length (takeWhile (\<lambda>e. e < t) s) < length s \<and> s ! length (takeWhile (\<lambda>e. e < t) s) = t)"
  unfolding find_tag_def using find_range_takeWhile [of 0 s s t] by simp

lemma insert_at_set:
  "set (take k s @ t # drop k s) = insert t (set s)"
proof -
  have "set (take k s) \<union> set (drop k s) = set s"
    by (metis append_take_drop_id set_append)
  then show ?thesis by auto
qed

lemma insert_at_sorted:
  "sorted_wrt (<) s \<Longrightarrow> t \<notin> set s \<Longrightarrow>
   sorted_wrt (<) (take (fst (find_tag s t)) s @ t # drop (fst (find_tag s t)) s)"
  unfolding find_tag_takeWhile fst_conv
proof (induction s)
  case Nil
  then show ?case by simp
next
  case (Cons e es)
  let ?k = "length (takeWhile (\<lambda>e. e < t) es)"
  from Cons.prems have srt: "sorted_wrt (<) es" and lt: "\<forall>x\<in>set es. e < x"
    and ne: "e \<noteq> t" and nin: "t \<notin> set es"
    by auto
  show ?case
  proof (cases "e < t")
    case True
    have ih: "sorted_wrt (<) (take ?k es @ t # drop ?k es)"
      using Cons.IH [OF srt nin] .
    have "\<forall>x\<in>set (take ?k es @ t # drop ?k es). e < x"
      unfolding insert_at_set using lt True by simp
    with ih have "sorted_wrt (<) (e # (take ?k es @ t # drop ?k es))"
      by simp
    with True show ?thesis by simp
  next
    case False
    with ne have "t < e" by simp
    with lt have "\<forall>x\<in>set es. t < x" by (meson less_trans)
    with False \<open>t < e\<close> Cons.prems(1) show ?thesis by simp
  qed
qed


lemma find_tag_le_length: "fst (find_tag s t) \<le> length s"
  by (simp add: find_tag_takeWhile length_takeWhile_le)

lemma find_tag_found_less: "snd (find_tag s t) \<Longrightarrow> fst (find_tag s t) < length s"
  by (simp add: find_tag_takeWhile)

lemma tagStep_add:
  "tagStep False s t =
     Inr (if snd (find_tag s t) then s
          else take (fst (find_tag s t)) s @ t # drop (fst (find_tag s t)) s)"
  using find_tag_le_length [of s t]
  by (auto simp: tagStep_def slice_to_def slice_from_def split: prod.splits)

lemma tagStep_remove:
  "tagStep True s t =
     Inr (if snd (find_tag s t)
          then take (fst (find_tag s t)) s @ drop (Suc (fst (find_tag s t))) s
          else s)"
  using find_tag_le_length [of s t] find_tag_found_less [of s t]
  by (auto simp: tagStep_def slice_to_def slice_from_def split: prod.splits)

lemma found_iff_member:
  "sorted_wrt (<) s \<Longrightarrow> snd (find_tag s t) \<longleftrightarrow> t \<in> set s"
  unfolding find_tag_takeWhile snd_conv
proof (induction s)
  case Nil
  then show ?case by simp
next
  case (Cons e es)
  then have lt: "\<forall>x\<in>set es. e < x" and srt: "sorted_wrt (<) es" by auto
  show ?case
  proof (cases "e < t")
    case True
    then have "e \<noteq> t" by simp
    with True Cons.IH [OF srt] show ?thesis by simp
  next
    case False
    then have "t \<notin> set es" using lt by auto
    with False show ?thesis by auto
  qed
qed

lemma delete_at_remove1:
  "sorted_wrt (<) s \<Longrightarrow> t \<in> set s \<Longrightarrow>
   take (fst (find_tag s t)) s @ drop (Suc (fst (find_tag s t))) s = remove1 t s"
  unfolding find_tag_takeWhile fst_conv
proof (induction s)
  case Nil
  then show ?case by simp
next
  case (Cons e es)
  then have lt: "\<forall>x\<in>set es. e < x" and srt: "sorted_wrt (<) es" by auto
  show ?case
  proof (cases "e = t")
    case True
    then show ?thesis by simp
  next
    case False
    with Cons.prems have mem: "t \<in> set es" by simp
    with lt have "e < t" by simp
    with False Cons.IH [OF srt mem] show ?thesis by simp
  qed
qed

lemma strict_sorted_remove1:
  "sorted_wrt (<) (s :: string list) \<Longrightarrow> sorted_wrt (<) (remove1 t s)"
proof (induction s)
  case Nil
  then show ?case by simp
next
  case (Cons e es)
  have "set (remove1 t es) \<subseteq> set es" by (rule set_remove1_subset)
  with Cons show ?case by auto
qed


lemma macpineTag_loop_add_sorted:
  "sorted_wrt (<) s \<Longrightarrow>
   \<exists>r. macpineTag_loop False s labels = Inr r \<and> sorted_wrt (<) r \<and> set r = set s \<union> set labels"
proof (induction labels arbitrary: s)
  case Nil
  then show ?case by simp
next
  case (Cons t ts)
  let ?s' = "if snd (find_tag s t) then s
             else take (fst (find_tag s t)) s @ t # drop (fst (find_tag s t)) s"
  have step: "tagStep False s t = Inr ?s'" by (rule tagStep_add)
  have mem: "snd (find_tag s t) \<longleftrightarrow> t \<in> set s"
    using Cons.prems by (rule found_iff_member)
  have srt: "sorted_wrt (<) ?s'"
    using Cons.prems mem insert_at_sorted [of s t] by simp
  have st: "set ?s' = insert t (set s)"
  proof (cases "snd (find_tag s t)")
    case True
    with mem show ?thesis by auto
  next
    case False
    then show ?thesis by (simp only: if_False insert_at_set)
  qed
  from Cons.IH [OF srt] obtain r where
    r: "macpineTag_loop False ?s' ts = Inr r" "sorted_wrt (<) r" "set r = set ?s' \<union> set ts"
    by blast
  have "macpineTag_loop False s (t # ts) = Inr r"
    using step r(1) by simp
  moreover have "set r = set s \<union> set (t # ts)"
    using r(3) st by auto
  ultimately show ?case using r(2) by blast
qed

text \<open>
  Claim C5. Whatever labels are added, in whatever order, to the empty tag sequence, the loop
  of \<open>macpineTag\<close> in add mode returns (it does not panic) a sequence that is strictly
  ascending in the lexicographic order, hence without duplicates, and that holds exactly the
  labels added; adding once more a label that is already in the result leaves it unchanged.
\<close>
theorem tag_add_strictly_ascending:
  "\<exists>r. macpineTag_loop False [] labels = Inr r \<and> sorted_wrt (<) r \<and> distinct r \<and>
       set r = set labels \<and> (\<forall>t\<in>set r. tagStep False r t = Inr r)"
proof -
  from macpineTag_loop_add_sorted [of "[]" labels] obtain r where
    r: "macpineTag_loop False [] labels = Inr r" "sorted_wrt (<) r" "set r = set labels"
    by auto
  have "distinct r" using r(2) by (simp add: strict_sorted_iff)
  moreover have "\<forall>t\<in>set r. tagStep False r t = Inr r"
    using found_iff_member [OF r(2)] by (simp add: tagStep_add)
  ultimately show ?thesis using r by blast
qed

theorem tag_add_strictly_ascending_witness:
  "macpineTag_loop False [] [''web'', ''db'', ''web''] = Inr [''db'', ''web''] \<and>
   sorted_wrt (<) [''db'', ''web''] \<and>
   tagStep False [''db'', ''web''] ''db'' = Inr [''db'', ''web''] \<and>
   tagStep False [''db'', ''web''] ''web'' = Inr [''db'', ''web'']"
proof -
  have ev: "macpineTag_loop False [] [''web'', ''db'', ''web''] = Inr [''db'', ''web'']"
    by (simp add: tagStep_def find_tag_def slice_to_def slice_from_def)
  from tag_add_strictly_ascending [of "[''web'', ''db'', ''web'']"] ev
  show ?thesis by simp
qed

text \<open>
  Claim C6. On a strictly ascending (sorted, duplicate-free) tag sequence, removing a label
  that is not present returns the sequence unchanged; removing a label that is present
  returns the sequence with that one element deleted, which is one element shorter and
  still strictly ascending.
\<close>
theorem tag_remove_sorted:
  assumes "sorted_wrt (<) s"
  shows "(t \<notin> set s \<longrightarrow> tagStep True s t = Inr s) \<and>
         (t \<in> set s \<longrightarrow>
            tagStep True s t = Inr (remove1 t s) \<and>
            length (remove1 t s) + 1 = length s \<and>
            sorted_wrt (<) (remove1 t s))"
proof (intro conjI impI)
  assume "t \<notin> set s"
  then show "tagStep True s t = Inr s"
    using found_iff_member [OF assms, of t] by (simp add: tagStep_remove)
next
  assume mem: "t \<in> set s"
  then show "tagStep True s t = Inr (remove1 t s)"
    using found_iff_member [OF assms, of t] delete_at_remove1 [OF assms mem]
    by (simp add: tagStep_remove)
  from mem show "length (remove1 t s) + 1 = length s"
    by (simp add: length_remove1) (metis Suc_pred length_pos_if_in_set)
  show "sorted_wrt (<) (remove1 t s)"
    using assms by (rule strict_sorted_remove1)
qed

theorem tag_remove_sorted_witness:
  "sorted_wrt (<) [''db'', ''web''] \<and>
   tagStep True [''db'', ''web''] ''web'' = Inr [''db''] \<and>
   tagStep True [''db'', ''web''] ''api'' = Inr [''db'', ''web'']"
proof -
  have h: "sorted_wrt (<) [''db'', ''web'']" by simp
  from tag_remove_sorted [OF h, of "''web''"] tag_remove_sorted [OF h, of "''api''"] h
  show ?thesis by simp
qed

text \<open>
  Claim C7. \<open>find\<close> returns the smallest index whose element is lexicographically at least
  \<open>t\<close>, or the length of \<open>s\<close> when there is none: the index is at most the length, every
  element before it is smaller than \<open>t\<close>, and the element at it, if any, is at least \<open>t\<close>.
  The boolean is true exactly when the element at that index exists and equals \<open>t\<close>.
  This holds for every sequence, sorted or not, so in particular for the sorted ones.
\<close>
theorem find_tag_least_index:
  assumes "find_tag s t = (i, found)"
  shows "i \<le> length s \<and> (\<forall>j<i. s ! j < t) \<and> (i < length s \<longrightarrow> t \<le> s ! i) \<and>
         (found \<longleftrightarrow> i < length s \<and> s ! i = t)"
proof -
  let ?P = "\<lambda>e. e < t"
  from assms have i: "i = length (takeWhile ?P s)"
    and f: "found \<longleftrightarrow> i < length s \<and> s ! i = t"
    by (auto simp: find_tag_takeWhile)
  have "i \<le> length s" unfolding i by (rule length_takeWhile_le)
  moreover have "\<forall>j<i. s ! j < t"
  proof (intro allI impI)
    fix j assume "j < i"
    then have lt: "j < length (takeWhile ?P s)" unfolding i .
    then have "takeWhile ?P s ! j = s ! j" by (rule takeWhile_nth)
    moreover from lt have "takeWhile ?P s ! j \<in> set (takeWhile ?P s)" by (rule nth_mem)
    ultimately have "s ! j \<in> set (takeWhile ?P s)" by simp
    then show "s ! j < t" by (rule set_takeWhileD [THEN conjunct2])
  qed
  moreover have "i < length s \<longrightarrow> t \<le> s ! i"
    unfolding i using nth_length_takeWhile [of ?P s] by (simp add: not_less)
  ultimately show ?thesis using f by blast
qed

theorem find_tag_least_index_witness:
  "find_tag [''a'', ''c'', ''e''] ''c'' = (1, True) \<and>
   [''a'', ''c'', ''e''] ! 0 < ''c'' \<and> ''c'' \<le> [''a'', ''c'', ''e''] ! 1"
proof -
  have ev: "find_tag [''a'', ''c'', ''e''] ''c'' = (1, True)"
    by (simp add: find_tag_def)
  from find_tag_least_index [OF ev] ev show ?thesis by simp
qed

text \<open>
  Claim C10. \<open>find\<close> is a total function (structural recursion over the sequence) and, for
  every sequence \<open>s\<close>, sorted or not, and every label \<open>t\<close>, its index lies in
  \<open>[0, length s]\<close>, and strictly below the length when a match is reported. Hence the slice
  expressions of the insertion (\<open>s[:i]\<close>, \<open>s[i:]\<close>) and of the deletion (\<open>s[:i]\<close>,
  \<open>s[i+1:]\<close>, taken only on a match) are all in range and one step of the loop never
  panics, in either mode.
\<close>
theorem find_tag_in_bounds:
  "fst (find_tag s t) \<le> length s \<and>
   (snd (find_tag s t) \<longrightarrow> fst (find_tag s t) < length s) \<and>
   slice_to s (fst (find_tag s t)) = Inr (take (fst (find_tag s t)) s) \<and>
   slice_from s (fst (find_tag s t)) = Inr (drop (fst (find_tag s t)) s) \<and>
   (snd (find_tag s t) \<longrightarrow>
      slice_from s (fst (find_tag s t) + 1) = Inr (drop (fst (find_tag s t) + 1) s)) \<and>
   (\<exists>r. tagStep remove s t = Inr r)"
  using find_tag_le_length [of s t] find_tag_found_less [of s t]
  by (cases remove) (auto simp: slice_to_def slice_from_def tagStep_add tagStep_remove)

theorem find_tag_in_bounds_witness:
  "snd (find_tag [''b'', ''a''] ''b'') \<and> fst (find_tag [''b'', ''a''] ''b'') < length [''b'', ''a''] \<and>
   slice_from [''b'', ''a''] (fst (find_tag [''b'', ''a''] ''b'') + 1) = Inr [''a'']"
proof -
  have ev: "find_tag [''b'', ''a''] ''b'' = (0, True)" by (simp add: find_tag_def)
  from find_tag_in_bounds [of "[''b'', ''a'']" "''b''" True] ev show ?thesis by simp
qed

section \<open>Properties of the argument validation\<close>

lemma isUpper_not_isDigit: "isUpper c \<Longrightarrow> \<not> isDigit c"
proof -
  have "CHR ''9'' < CHR ''A''" by simp
  then show "isUpper c \<Longrightarrow> \<not> isDigit c"
    unfolding isUpper_def isDigit_def by (meson leD le_less_trans order_trans not_le)
qed

lemma diskLoop_filter:
  "diskLoop d (l, n) = (l @ filter isUpper d, n @ filter isDigit d)"
proof (induction d arbitrary: l n)
  case Nil
  then show ?case by simp
next
  case (Cons r rs)
  have "diskLoop (r # rs) (l, n) =
          (if isUpper r then diskLoop rs (l @ [r], n)
           else if isDigit r then diskLoop rs (l, n @ [r])
           else diskLoop rs (l, n))"
    by (simp add: isUpper_def isDigit_def)
  then show ?case using isUpper_not_isDigit [of r] by (simp add: Cons.IH)
qed

lemma isDigit_not_sign: "isDigit c \<Longrightarrow> c \<noteq> CHR ''-'' \<and> c \<noteq> CHR ''+''"
  by (auto simp: isDigit_def)

lemma isDigit_of_char: "isDigit c \<Longrightarrow> (48::int) \<le> of_char c"
proof -
  assume "isDigit c"
  then have "of_char (CHR ''0'') \<le> (of_char c :: nat)"
    by (simp add: isDigit_def less_eq_char_def)
  then have "(48::nat) \<le> of_char c" by simp
  then have "int 48 \<le> int (of_char c)" by (simp only: of_nat_le_iff)
  then show ?thesis by (simp add: of_nat_of_char)
qed

lemma decimal_nonneg_aux:
  "0 \<le> a \<Longrightarrow> 0 \<le> foldl (\<lambda>n ch. n * 10 + (of_char ch - 48)) (a::int) (filter isDigit d)"
proof (induction d arbitrary: a)
  case Nil
  then show ?case by simp
next
  case (Cons c d)
  show ?case
  proof (cases "isDigit c")
    case True
    then have "(48::int) \<le> of_char c" by (rule isDigit_of_char)
    with Cons.prems have "0 \<le> a * 10 + (of_char c - 48)" by arith
    from Cons.IH [OF this] True show ?thesis by simp
  next
    case False
    with Cons show ?thesis by simp
  qed
qed

lemma decimal_nonneg: "0 \<le> decimal (filter isDigit d)"
  unfolding decimal_def by (rule decimal_nonneg_aux) simp

lemma Atoi_digits:
  "Atoi (filter isDigit d) =
     (if filter isDigit d \<noteq> [] \<and> decimal (filter isDigit d) < 2 ^ 63
      then Some (decimal (filter isDigit d)) else None)"
proof (cases "filter isDigit d")
  case Nil
  then show ?thesis by (simp add: Atoi_def)
next
  case (Cons c cs)
  then have "c \<in> set (filter isDigit d)" by simp
  then have "isDigit c" by simp
  then have "Atoi_sign (c # cs) = (False, c # cs)"
    using isDigit_not_sign [of c] by simp
  moreover have "list_all isDigit (c # cs)"
    unfolding Cons [symmetric] by (simp add: list_all_iff)
  ultimately show ?thesis
    unfolding Cons by (simp add: Atoi_def)
qed

lemma atoiBelow_digits:
  "atoiBelow (filter isDigit d) 0 \<longleftrightarrow>
     \<not> (filter isDigit d \<noteq> [] \<and> decimal (filter isDigit d) < 2 ^ 63)"
  using decimal_nonneg [of d] by (simp add: atoiBelow_def Atoi_digits)

lemma Atoi_2: "Atoi ''2'' = Some 2" by (simp add: Atoi_def decimal_def isDigit_def)
lemma Atoi_2048: "Atoi ''2048'' = Some 2048" by (simp add: Atoi_def decimal_def isDigit_def)
lemma Atoi_22: "Atoi ''22'' = Some 22" by (simp add: Atoi_def decimal_def isDigit_def)
lemma Atoi_5: "Atoi ''5'' = Some 5" by (simp add: Atoi_def decimal_def isDigit_def)
lemma Atoi_05: "Atoi ''05'' = Some 5" by (simp add: Atoi_def decimal_def isDigit_def)
lemma Atoi_empty: "Atoi [] = None" by (simp add: Atoi_def)

lemma CorrectArgumentsCloud_defaults:
  "machineMount g = [] \<Longrightarrow> ParsePort e [] = None \<Longrightarrow>
   CorrectArgumentsCloud g e ''alpine_3.20.3'' [] ''2'' ''2048'' d ''22'' [] = checkDisk d"
  by (simp add: CorrectArgumentsCloud_def atoiBelow_def Atoi_2 Atoi_2048 Atoi_22 checkMount_def
      split: option.splits)

text \<open>
  Claim C4. The loop classifies every character of the disk size on its own: the decimal
  digits, in their order, make the magnitude string and the uppercase letters the suffix
  string; every other character is dropped. The check succeeds exactly when the magnitude
  string parses (\<open>strconv.Atoi\<close>) as an integer that is at least 0 and the suffix is one of
  the empty string, \<open>K\<close>, \<open>M\<close> and \<open>G\<close>. The magnitude string parses so exactly when it is not
  empty and its value is below \<open>2\<^sup>6\<^sup>3\<close>. With the other arguments at their defaults the
  result of \<open>CorrectArgumentsCloud\<close> is the result of this check. In particular \<open>5G\<close>, \<open>G5\<close>
  and \<open>05G\<close> pass with magnitude 5 and suffix \<open>G\<close>, and \<open>5T\<close> and \<open>G\<close> fail.
\<close>
theorem disk_size_classification:
  "diskLoop machineDisk ([], []) = (filter isUpper machineDisk, filter isDigit machineDisk) \<and>
   (checkDisk machineDisk = None \<longleftrightarrow>
      (\<exists>m. Atoi (filter isDigit machineDisk) = Some m \<and> 0 \<le> m) \<and>
      filter isUpper machineDisk \<in> {[], ''K'', ''M'', ''G''}) \<and>
   ((\<exists>m. Atoi (filter isDigit machineDisk) = Some m \<and> 0 \<le> m) \<longleftrightarrow>
      filter isDigit machineDisk \<noteq> [] \<and> decimal (filter isDigit machineDisk) < 2 ^ 63) \<and>
   CorrectArgumentsCloud flagDefaults sampleHost ''alpine_3.20.3'' [] ''2'' ''2048'' machineDisk
       ''22'' [] = checkDisk machineDisk \<and>
   diskLoop ''5G'' ([], []) = (''G'', ''5'') \<and> Atoi ''5'' = Some 5 \<and> checkDisk ''5G'' = None \<and>
   diskLoop ''G5'' ([], []) = (''G'', ''5'') \<and> checkDisk ''G5'' = None \<and>
   diskLoop ''05G'' ([], []) = (''G'', ''05'') \<and> Atoi ''05'' = Some 5 \<and> checkDisk ''05G'' = None \<and>
   checkDisk ''5T'' = Some (ErrorsNew ''disk size suffix must be K, M, or G'') \<and>
   diskLoop ''G'' ([], []) = (''G'', []) \<and> Atoi [] = None \<and>
   checkDisk ''G'' = Some (ErrorsNew
     ''disk size (-d) must be a positive integer optionally followed by K, M, or G'')"
proof -
  let ?n = "filter isDigit machineDisk" and ?l = "filter isUpper machineDisk"
  have loop: "diskLoop machineDisk ([], []) = (?l, ?n)"
    by (simp add: diskLoop_filter)
  have ok: "(\<exists>m. Atoi ?n = Some m \<and> 0 \<le> m) \<longleftrightarrow> \<not> atoiBelow ?n 0"
    by (auto simp: atoiBelow_def split: option.splits)
  have iff: "checkDisk machineDisk = None \<longleftrightarrow>
      (\<exists>m. Atoi ?n = Some m \<and> 0 \<le> m) \<and> ?l \<in> {[], ''K'', ''M'', ''G''}"
    unfolding ok by (simp add: checkDisk_def loop StringSliceContains_def)
  have dec: "(\<exists>m. Atoi ?n = Some m \<and> 0 \<le> m) \<longleftrightarrow> ?n \<noteq> [] \<and> decimal ?n < 2 ^ 63"
    unfolding ok by (simp add: atoiBelow_digits)
  have whole: "CorrectArgumentsCloud flagDefaults sampleHost ''alpine_3.20.3'' [] ''2'' ''2048''
      machineDisk ''22'' [] = checkDisk machineDisk"
    by (rule CorrectArgumentsCloud_defaults) (simp_all add: flagDefaults_def sampleHost_def)
  have ex1: "diskLoop ''5G'' ([], []) = (''G'', ''5'')" by simp
  have ex2: "diskLoop ''G5'' ([], []) = (''G'', ''5'')" by simp
  have ex3: "diskLoop ''05G'' ([], []) = (''G'', ''05'')" by simp
  have ex4: "diskLoop ''5T'' ([], []) = (''T'', ''5'')" by simp
  have ex5: "diskLoop ''G'' ([], []) = (''G'', [])" by simp
  have c1: "checkDisk ''5G'' = None"
    by (simp add: checkDisk_def ex1 atoiBelow_def Atoi_5 StringSliceContains_def)
  have c2: "checkDisk ''G5'' = None"
    by (simp add: checkDisk_def ex2 atoiBelow_def Atoi_5 StringSliceContains_def)
  have c3: "checkDisk ''05G'' = None"
    by (simp add: checkDisk_def ex3 atoiBelow_def Atoi_05 StringSliceContains_def)
  have c4: "checkDisk ''5T'' = Some (ErrorsNew ''disk size suffix must be K, M, or G'')"
    by (simp add: checkDisk_def ex4 atoiBelow_def Atoi_5 StringSliceContains_def)
  have c5: "checkDisk ''G'' = Some (ErrorsNew
     ''disk size (-d) must be a positive integer optionally followed by K, M, or G'')"
    by (simp add: checkDisk_def ex5 atoiBelow_def Atoi_empty)
  show ?thesis
    using loop iff dec whole ex1 ex2 ex3 ex5 c1 c2 c3 c4 c5 Atoi_5 Atoi_05 Atoi_empty
    by blast
qed

section \<open>Properties of the launch\<close>

lemma launchFailed_no_HostLaunch: "HostLaunch c \<notin> set (launchFailed e home cfg)"
  by (simp add: launchFailed_def Let_def)

lemma launchCloud_failed:
  assumes "launchCloud g e = Some (effs, out, g')"
    and "HostLaunch cfg \<in> set effs"
    and "Launch e cfg = Some err"
    and "UserHomeDir e = Inr home"
  shows "effs = HostLaunch cfg # launchFailed e home cfg \<and> out = LogFatal (Error_msg err)"
  using assms launchFailed_no_HostLaunch
  by (auto simp: launchCloud_def split: option.splits sum.splits)

lemma checkDisk_5G: "checkDisk ''5G'' = None"
  by (simp add: checkDisk_def atoiBelow_def Atoi_5 StringSliceContains_def)

lemma randomAlias_sampleHost: "randomAlias sampleHost [''web''] 0 = Some ''quiet-otter''"
  by (simp add: randomAlias.simps sampleHost_def StringSliceContains_def)

lemma randomAlias_failingHost: "randomAlias failingHost [''web''] 0 = Some ''quiet-otter''"
  by (simp add: randomAlias.simps failingHost_def sampleHost_def StringSliceContains_def)

lemma launchCloud_sampleHost:
  assumes "machineMount g = []" and "machineName g = []" and "machineArch g = []"
    and "imageVersionCloud g = ''alpine_3.20.3''" and "machineArchCloud g = []"
    and "machineCPUCloud g = ''2''" and "machineMemoryCloud g = ''2048''"
    and "machineDiskCloud g = ''5G''" and "sshPortCloud g = ''22''" and "machinePortCloud g = []"
  shows "launchCloud g sampleHost =
     Some ([HostLaunch (machineConfig (g\<lparr>machineArch := ''aarch64'', machineName := ''quiet-otter''\<rparr>)
                          ''/Users/u'' ''56:c8:38:5a:1f:07''),
            Println [],
            LogPrintln (''launchClouded: '' @ machineNameCloud g)],
           Returned,
           g\<lparr>machineArch := ''aarch64'', machineName := ''quiet-otter''\<rparr>)"
proof -
  have "ParsePort sampleHost [] = None" by (simp add: sampleHost_def)
  with assms(1) have "CorrectArgumentsCloud g sampleHost ''alpine_3.20.3'' [] ''2'' ''2048''
      ''5G'' ''22'' [] = None"
    by (simp add: CorrectArgumentsCloud_defaults checkDisk_5G)
  moreover have "hostArch g sampleHost = Inr (g\<lparr>machineArch := ''aarch64''\<rparr>)"
    using assms(3) by (simp add: hostArch_def sampleHost_def)
  moreover have "ListVMNames sampleHost = [''web'']" by (simp add: sampleHost_def)
  moreover have "instanceName (g\<lparr>machineArch := ''aarch64''\<rparr>) sampleHost [''web''] =
      Some (Inr (g\<lparr>machineArch := ''aarch64'', machineName := ''quiet-otter''\<rparr>))"
    using assms(2) by (simp add: instanceName_def randomAlias_sampleHost)
  moreover have "UserHomeDir sampleHost = Inr ''/Users/u''"
    and "GenerateMACAddress sampleHost = Inr ''56:c8:38:5a:1f:07''"
    and "\<And>c. Launch sampleHost c = None"
    by (simp_all add: sampleHost_def)
  ultimately show ?thesis
    using assms(4-10) by (simp add: launchCloud_def)
qed

lemma launchCloud_failingHost:
  assumes "machineMount g = []" and "machineName g = []" and "machineArch g = []"
    and "imageVersionCloud g = ''alpine_3.20.3''" and "machineArchCloud g = []"
    and "machineCPUCloud g = ''2''" and "machineMemoryCloud g = ''2048''"
    and "machineDiskCloud g = ''5G''" and "sshPortCloud g = ''22''" and "machinePortCloud g = []"
  shows "launchCloud g failingHost =
     Some (HostLaunch (machineConfig (g\<lparr>machineArch := ''aarch64'', machineName := ''quiet-otter''\<rparr>)
                          ''/Users/u'' ''56:c8:38:5a:1f:07'') #
           launchFailed failingHost ''/Users/u''
             (machineConfig (g\<lparr>machineArch := ''aarch64'', machineName := ''quiet-otter''\<rparr>)
                          ''/Users/u'' ''56:c8:38:5a:1f:07''),
           LogFatal ''qemu exited'',
           g\<lparr>machineArch := ''aarch64'', machineName := ''quiet-otter''\<rparr>)"
proof -
  have "ParsePort failingHost [] = None" by (simp add: failingHost_def sampleHost_def)
  with assms(1) have "CorrectArgumentsCloud g failingHost ''alpine_3.20.3'' [] ''2'' ''2048''
      ''5G'' ''22'' [] = None"
    by (simp add: CorrectArgumentsCloud_defaults checkDisk_5G)
  moreover have "hostArch g failingHost = Inr (g\<lparr>machineArch := ''aarch64''\<rparr>)"
    using assms(3) by (simp add: hostArch_def failingHost_def sampleHost_def)
  moreover have "ListVMNames failingHost = [''web'']" by (simp add: failingHost_def sampleHost_def)
  moreover have "instanceName (g\<lparr>machineArch := ''aarch64''\<rparr>) failingHost [''web''] =
      Some (Inr (g\<lparr>machineArch := ''aarch64'', machineName := ''quiet-otter''\<rparr>))"
    using assms(2) by (simp add: instanceName_def randomAlias_failingHost)
  moreover have "UserHomeDir failingHost = Inr ''/Users/u''"
    and "GenerateMACAddress failingHost = Inr ''56:c8:38:5a:1f:07''"
    and "\<And>c. Launch failingHost c = Some (ErrorsNew ''qemu exited'')"
    by (simp_all add: failingHost_def sampleHost_def)
  ultimately show ?thesis
    using assms(4-10) by (simp add: launchCloud_def)
qed

text \<open>
  Claim C2 (what the code does). The \<open>--mount\<close> flag is bound to \<open>machineMountCloud\<close>
  (line 45), but the check of lines 107-113 reads \<open>machineMount\<close>. So the result of
  \<open>CorrectArgumentsCloud\<close> does not depend on the mount-path argument at all, and with
  \<open>--mount /no/such/dir\<close>, a path that does not exist on the host, and every other flag at
  its default, validation succeeds.
\<close>
theorem mount_flag_not_checked:
  "CorrectArgumentsCloud (g\<lparr>machineMountCloud := p\<rparr>) e imageVersion arch cpu memory disk ssh port =
     CorrectArgumentsCloud g e imageVersion arch cpu memory disk ssh port \<and>
   Stat sampleHost ''/no/such/dir'' = StatNotExist \<and>
   CorrectArgumentsCloud
     (flagDefaults\<lparr>cloudInitCloud := ''ci.yaml'', machineMountCloud := ''/no/such/dir''\<rparr>)
     sampleHost ''alpine_3.20.3'' [] ''2'' ''2048'' ''5G'' ''22'' [] = None"
proof -
  have "CorrectArgumentsCloud
     (flagDefaults\<lparr>cloudInitCloud := ''ci.yaml'', machineMountCloud := ''/no/such/dir''\<rparr>)
     sampleHost ''alpine_3.20.3'' [] ''2'' ''2048'' ''5G'' ''22'' [] = checkDisk ''5G''"
    by (rule CorrectArgumentsCloud_defaults) (simp_all add: flagDefaults_def sampleHost_def)
  moreover have "Stat sampleHost ''/no/such/dir'' = StatNotExist"
    by (simp add: sampleHost_def)
  moreover have "CorrectArgumentsCloud (g\<lparr>machineMountCloud := p\<rparr>) e imageVersion arch cpu
      memory disk ssh port = CorrectArgumentsCloud g e imageVersion arch cpu memory disk ssh port"
  proof -
    have mount: "checkMount (g\<lparr>machineMountCloud := p\<rparr>) e = checkMount g e"
      by (simp add: checkMount_def split: stat_result.splits)
    show ?thesis unfolding CorrectArgumentsCloud_def mount by (rule refl)
  qed
  ultimately show ?thesis by (simp add: checkDisk_5G)
qed

text \<open>
  Claim C3 (what the code does). The \<open>--arch\<close> flag is bound to \<open>machineArchCloud\<close> (line 41)
  and the configuration is built from it (lines 162-171), but the default of lines 130-141
  is assigned to \<open>machineArch\<close>. On an arm64 host, with no \<open>--arch\<close> given, the host
  architecture \<open>aarch64\<close> ends up in \<open>machineArch\<close>, while the configuration handed to
  \<open>host.Launch\<close> has the empty string as its architecture and the firmware type \<open>bios\<close> in
  its image name.
\<close>
theorem empty_arch_stays_empty:
  "GOARCH sampleHost = ''arm64'' \<and>
   machineArchCloud (flagDefaults\<lparr>cloudInitCloud := ''ci.yaml''\<rparr>) = [] \<and>
   launchCloud (flagDefaults\<lparr>cloudInitCloud := ''ci.yaml''\<rparr>) sampleHost =
     Some ([HostLaunch (machineConfig
              (flagDefaults\<lparr>cloudInitCloud := ''ci.yaml'', machineArch := ''aarch64'',
                 machineName := ''quiet-otter''\<rparr>) ''/Users/u'' ''56:c8:38:5a:1f:07''),
            Println [],
            LogPrintln ''launchClouded: ''],
           Returned,
           flagDefaults\<lparr>cloudInitCloud := ''ci.yaml'', machineArch := ''aarch64'',
             machineName := ''quiet-otter''\<rparr>) \<and>
   Arch (machineConfig
          (flagDefaults\<lparr>cloudInitCloud := ''ci.yaml'', machineArch := ''aarch64'',
             machineName := ''quiet-otter''\<rparr>) ''/Users/u'' ''56:c8:38:5a:1f:07'') = [] \<and>
   Image (machineConfig
          (flagDefaults\<lparr>cloudInitCloud := ''ci.yaml'', machineArch := ''aarch64'',
             machineName := ''quiet-otter''\<rparr>) ''/Users/u'' ''56:c8:38:5a:1f:07'') =
     ''nocloud_alpine-alpine_3.20.3--bios-cloudinit-r0.qcow2''"
proof -
  have "launchCloud (flagDefaults\<lparr>cloudInitCloud := ''ci.yaml''\<rparr>) sampleHost =
     Some ([HostLaunch (machineConfig
              (flagDefaults\<lparr>cloudInitCloud := ''ci.yaml'', machineArch := ''aarch64'',
                 machineName := ''quiet-otter''\<rparr>) ''/Users/u'' ''56:c8:38:5a:1f:07''),
            Println [],
            LogPrintln (''launchClouded: '' @
              machineNameCloud (flagDefaults\<lparr>cloudInitCloud := ''ci.yaml''\<rparr>))],
           Returned,
           flagDefaults\<lparr>cloudInitCloud := ''ci.yaml'', machineArch := ''aarch64'',
             machineName := ''quiet-otter''\<rparr>)"
    by (rule launchCloud_sampleHost) (simp_all add: flagDefaults_def)
  moreover have "machineNameCloud (flagDefaults\<lparr>cloudInitCloud := ''ci.yaml''\<rparr>) = []"
    by (simp add: flagDefaults_def)
  moreover have "GOARCH sampleHost = ''arm64''" by (simp add: sampleHost_def)
  ultimately show ?thesis
    by (simp add: machineConfig_def machineType_def flagDefaults_def)
qed

text \<open>
  Claim C1 (what the code does). The \<open>--name\<close> flag is bound to \<open>machineNameCloud\<close> (line 48)
  and becomes the alias of the configuration (line 169), but lines 145-152 test and assign
  \<open>machineName\<close>. Whether the name check ends in the fatal error therefore does not depend
  on the name supplied. With \<open>--name web\<close> on a host that already has an instance \<open>web\<close> the
  run does not fail: \<open>host.Launch\<close> is called with the alias \<open>web\<close> and the command reports
  the launch; the alias that was generated and checked against the instance list stays in
  \<open>machineName\<close>, unused.
\<close>
theorem taken_name_is_launched:
  "(instanceName (g\<lparr>machineNameCloud := n\<rparr>) e vmList = Some (Inl msg)) =
     (instanceName g e vmList = Some (Inl msg)) \<and>
   StringSliceContains (ListVMNames sampleHost) ''web'' \<and>
   launchCloud (flagDefaults\<lparr>cloudInitCloud := ''ci.yaml'', machineNameCloud := ''web''\<rparr>) sampleHost =
     Some ([HostLaunch (machineConfig
              (flagDefaults\<lparr>cloudInitCloud := ''ci.yaml'', machineNameCloud := ''web'',
                 machineArch := ''aarch64'', machineName := ''quiet-otter''\<rparr>)
              ''/Users/u'' ''56:c8:38:5a:1f:07''),
            Println [],
            LogPrintln ''launchClouded: web''],
           Returned,
           flagDefaults\<lparr>cloudInitCloud := ''ci.yaml'', machineNameCloud := ''web'',
             machineArch := ''aarch64'', machineName := ''quiet-otter''\<rparr>) \<and>
   Alias (machineConfig
          (flagDefaults\<lparr>cloudInitCloud := ''ci.yaml'', machineNameCloud := ''web'',
             machineArch := ''aarch64'', machineName := ''quiet-otter''\<rparr>)
          ''/Users/u'' ''56:c8:38:5a:1f:07'') = ''web''"
proof -
  have "launchCloud (flagDefaults\<lparr>cloudInitCloud := ''ci.yaml'', machineNameCloud := ''web''\<rparr>)
      sampleHost =
     Some ([HostLaunch (machineConfig
              (flagDefaults\<lparr>cloudInitCloud := ''ci.yaml'', machineNameCloud := ''web'',
                 machineArch := ''aarch64'', machineName := ''quiet-otter''\<rparr>)
              ''/Users/u'' ''56:c8:38:5a:1f:07''),
            Println [],
            LogPrintln (''launchClouded: '' @ machineNameCloud
              (flagDefaults\<lparr>cloudInitCloud := ''ci.yaml'', machineNameCloud := ''web''\<rparr>))],
           Returned,
           flagDefaults\<lparr>cloudInitCloud := ''ci.yaml'', machineNameCloud := ''web'',
             machineArch := ''aarch64'', machineName := ''quiet-otter''\<rparr>)"
    by (rule launchCloud_sampleHost) (simp_all add: flagDefaults_def)
  moreover have "StringSliceContains (ListVMNames sampleHost) ''web''"
    by (simp add: StringSliceContains_def sampleHost_def)
  moreover have "(instanceName (g\<lparr>machineNameCloud := n\<rparr>) e vmList = Some (Inl msg)) =
     (instanceName g e vmList = Some (Inl msg))"
    by (simp add: instanceName_def split: option.splits)
  ultimately show ?thesis
    by (simp add: machineConfig_def)
qed

section \<open>Properties of a failed launch\<close>

lemma splitSlash_append:
  "splitSlash cur (xs @ CHR ''/'' # ys) = splitSlash cur xs @ splitSlash [] ys"
  by (induction xs arbitrary: cur) simp_all

lemma splitSlash_no_slash:
  "CHR ''/'' \<notin> set xs \<Longrightarrow> splitSlash cur xs = [cur @ xs]"
  by (induction xs arbitrary: cur) auto

lemma cleanElems_append:
  "cleanElems rooted out (cs @ ds) = cleanElems rooted (cleanElems rooted out cs) ds"
proof (cases rooted)
  case True
  have "cleanElems True out (cs @ ds) = cleanElems True (cleanElems True out cs) ds"
    by (induction cs arbitrary: out) simp_all
  with True show ?thesis by simp
next
  case False
  have "cleanElems False out (cs @ ds) = cleanElems False (cleanElems False out cs) ds"
    by (induction cs arbitrary: out) simp_all
  with False show ?thesis by simp
qed

lemma strings_Join_snoc:
  "xs \<noteq> [] \<Longrightarrow> strings_Join (xs @ [x]) sep = strings_Join xs sep @ sep @ x"
  by (induction xs sep rule: strings_Join.induct) simp_all

lemma Clean_Cons:
  "Clean (c # cs) =
     (if cleanElems (c = CHR ''/'') [] (splitSlash [] (c # cs)) = []
      then (if c = CHR ''/'' then ''/'' else ''.'')
      else (if c = CHR ''/'' then ''/'' else []) @
           strings_Join (cleanElems (c = CHR ''/'') [] (splitSlash [] (c # cs))) ''/'')"
  unfolding Clean_def list.case Let_def by (rule refl)

lemma Clean_snoc:
  assumes x: "CHR ''/'' \<notin> set x" "x \<noteq> []" "x \<noteq> ''.''" "x \<noteq> ''..''"
    and y: "CHR ''/'' \<notin> set y" "y \<noteq> []" "y \<noteq> ''.''" "y \<noteq> ''..''"
  shows "Clean ((q @ CHR ''/'' # y) @ CHR ''/'' # x) = Clean (q @ CHR ''/'' # y) @ CHR ''/'' # x"
proof -
  define p where "p = q @ CHR ''/'' # y"
  obtain c cs where p: "p = c # cs" by (cases p) (simp_all add: p_def)
  define r where "r \<longleftrightarrow> c = CHR ''/''"
  define out where "out = cleanElems r [] (splitSlash [] q) @ [y]"
  have ne: "out \<noteq> []" by (simp add: out_def)
  have sp: "splitSlash [] p = splitSlash [] q @ [y]"
    unfolding p_def using y(1) by (simp add: splitSlash_append splitSlash_no_slash)
  have spx: "splitSlash [] (p @ CHR ''/'' # x) = splitSlash [] p @ [x]"
    using x(1) by (simp add: splitSlash_append splitSlash_no_slash)
  have outp: "cleanElems r [] (splitSlash [] p) = out"
    unfolding sp cleanElems_append out_def using y by simp
  have outx: "cleanElems r [] (splitSlash [] (p @ CHR ''/'' # x)) = out @ [x]"
    unfolding spx cleanElems_append outp using x by simp
  have px: "p @ CHR ''/'' # x = c # (cs @ CHR ''/'' # x)" using p by simp
  have "Clean p = (if r then ''/'' else []) @ strings_Join out ''/''"
    using outp ne unfolding p Clean_Cons r_def by simp
  moreover have "Clean (p @ CHR ''/'' # x) = (if r then ''/'' else []) @ strings_Join (out @ [x]) ''/''"
    using outx ne unfolding px Clean_Cons r_def by simp
  ultimately have "Clean (p @ CHR ''/'' # x) = Clean p @ CHR ''/'' # x"
    using ne by (simp add: strings_Join_snoc)
  then show ?thesis unfolding p_def .
qed

lemma Join_error_log_file:
  assumes "CHR ''/'' \<notin> set name" and "name \<noteq> []" and "name \<noteq> ''.''" and "name \<noteq> ''..''"
  shows "Join [home, ''.macpine'', ''cache'', ''.error-logs'', name] =
         Join [home, ''.macpine'', ''cache'', ''.error-logs''] @ CHR ''/'' # name"
proof (cases "home = []")
  case True
  have "Clean ((''.macpine/cache'' @ CHR ''/'' # ''.error-logs'') @ CHR ''/'' # name) =
        Clean (''.macpine/cache'' @ CHR ''/'' # ''.error-logs'') @ CHR ''/'' # name"
    using assms by (intro Clean_snoc) simp_all
  with True assms(2) show ?thesis by (simp add: Join_def)
next
  case False
  have "Clean (((home @ ''/.macpine/cache'') @ CHR ''/'' # ''.error-logs'') @ CHR ''/'' # name) =
        Clean ((home @ ''/.macpine/cache'') @ CHR ''/'' # ''.error-logs'') @ CHR ''/'' # name"
    using assms by (intro Clean_snoc) simp_all
  with False assms(2) show ?thesis by (simp add: Join_def)
qed

lemma utod_digits: "set (utod n) \<subseteq> set ''0123456789''"
proof (induction n rule: utod.induct)
  case (1 n)
  have digit: "\<And>k. k < 10 \<Longrightarrow> ''0123456789'' ! k \<in> set ''0123456789''"
    by (rule nth_mem) simp
  show ?case
  proof (cases "n < 10")
    case True
    then show ?thesis using digit [of n] by (subst utod.simps) simp
  next
    case False
    have "n mod 10 < 10" by simp
    from digit [OF this] 1 [OF False] False show ?thesis
      by (subst utod.simps) simp
  qed
qed

lemma appendInt_no_slash: "CHR ''/'' \<notin> set (appendInt x w)"
proof -
  have "CHR ''/'' \<notin> set ''0123456789''" by simp
  with utod_digits [of "nat \<bar>x\<bar>"] have "CHR ''/'' \<notin> set (utod (nat \<bar>x\<bar>))" by blast
  then show ?thesis by (simp add: appendInt_def)
qed

lemma Format_stamp_no_slash: "CHR ''/'' \<notin> set (Format_stamp t)"
  by (simp add: Format_stamp_def Let_def appendInt_no_slash split: prod.splits)

lemma errorLogName_plain:
  assumes "CHR ''/'' \<notin> set alias"
  shows "CHR ''/'' \<notin> set (errorLogName alias t)"
    and "errorLogName alias t \<noteq> []"
    and "errorLogName alias t \<noteq> ''.''"
    and "errorLogName alias t \<noteq> ''..''"
proof -
  have us: "CHR ''_'' \<in> set (errorLogName alias t)"
    by (simp add: errorLogName_def)
  show "CHR ''/'' \<notin> set (errorLogName alias t)"
    using assms Format_stamp_no_slash [of t]
    by (auto simp: errorLogName_def ReplaceAll_char_def split: if_splits)
  show "errorLogName alias t \<noteq> []" using us by auto
  show "errorLogName alias t \<noteq> ''.''" using us by auto
  show "errorLogName alias t \<noteq> ''..''" using us by auto
qed

lemma errorLogName_unfold:
  "errorLogName alias t =
     (let local = unixSec t + zoneOffset t;
          clock = local mod 86400;
          stamp = (case civil (local div 86400) of (year, month, day) \<Rightarrow>
                     appendInt year 4 @ ''-'' @ appendInt month 2 @ ''-'' @ appendInt day 2 @
                     ''_'' @ appendInt (clock div 3600) 2 @ ''-'' @
                     appendInt (clock mod 3600 div 60) 2 @ ''-'' @ appendInt (clock mod 60) 2)
      in map (\<lambda>c. if c = CHR '' '' then CHR ''_'' else c) alias @ ''_'' @ stamp @ ''.log'')"
  by (simp add: errorLogName_def Format_stamp_def ReplaceAll_char_def Let_def)

lemma civil_19675: "civil 19675 = (2023, 11, 14)"
  by code_simp

lemma appendInt_values:
  "appendInt 2023 4 = ''2023''" "appendInt 11 2 = ''11''" "appendInt 14 2 = ''14''"
  "appendInt 13 2 = ''13''" "appendInt 20 2 = ''20''" "appendInt 22 2 = ''22''"
  by (simp_all add: appendInt_def utod.simps)

lemma Format_stamp_local:
  "Format_stamp \<lparr>unixSec = 1700000000, zoneOffset = - 28800\<rparr> = ''2023-11-14_14-13-20''"
  by (simp add: Format_stamp_def civil_19675 appendInt_values)

lemma Format_stamp_utc:
  "Format_stamp (UTC \<lparr>unixSec = 1700000000, zoneOffset = - 28800\<rparr>) = ''2023-11-14_22-13-20''"
  by (simp add: Format_stamp_def UTC_def civil_19675 appendInt_values)

lemma failingHost_fields:
  "Now failingHost = \<lparr>unixSec = 1700000000, zoneOffset = - 28800\<rparr>"
  "GetInstancePID failingHost c = 4711"
  "Launch failingHost c = Some (ErrorsNew ''qemu exited'')"
  "UserHomeDir failingHost = Inr ''/Users/u''"
  by (simp_all add: failingHost_def sampleHost_def)

lemma Itoa_4711: "Itoa 4711 = ''4711''"
  by (simp add: Itoa_def utod.simps)

lemma Join_error_log_dir:
  "Join [''/Users/u'', ''.macpine'', ''cache'', ''.error-logs''] =
     ''/Users/u/.macpine/cache/.error-logs''"
  by (simp add: Join_def Clean_def)

text \<open>
  Claim C8, as stated, fails. On a host eight hours west of UTC, at the instant
  2023-11-14 22:13:20 UTC, a failed launch of the instance \<open>dev box 2\<close> asks for the log to be
  renamed to \<open>dev_box_2_2023-11-14_14-13-20.log\<close>, the local wall-clock time. The name with
  the time stamp in UTC would be \<open>dev_box_2_2023-11-14_22-13-20.log\<close>: \<open>time.Now()\<close> is in the
  local zone and line 194 does not convert it.
\<close>
theorem error_log_stamp_not_UTC:
  "launchCloud (flagDefaults\<lparr>cloudInitCloud := ''ci.yaml'', machineNameCloud := ''dev box 2''\<rparr>)
       failingHost =
     Some ([HostLaunch (machineConfig
              (flagDefaults\<lparr>cloudInitCloud := ''ci.yaml'', machineNameCloud := ''dev box 2'',
                 machineArch := ''aarch64'', machineName := ''quiet-otter''\<rparr>)
              ''/Users/u'' ''56:c8:38:5a:1f:07''),
            MkdirAll ''/Users/u/.macpine/cache/.error-logs'' 493,
            Rename ''/Users/u/.macpine/dev box 2/alpine.log''
                   ''/Users/u/.macpine/cache/.error-logs/dev_box_2_2023-11-14_14-13-20.log'',
            Println ''logs are in: /Users/u/.macpine/cache/.error-logs/dev_box_2_2023-11-14_14-13-20.log'',
            Println ''run this to clean up:'',
            Println ''rm -rf /Users/u/.macpine/dev box 2'',
            Println ''kill 4711''],
           LogFatal ''qemu exited'',
           flagDefaults\<lparr>cloudInitCloud := ''ci.yaml'', machineNameCloud := ''dev box 2'',
             machineArch := ''aarch64'', machineName := ''quiet-otter''\<rparr>) \<and>
   errorLogNameUTC ''dev box 2'' (Now failingHost) = ''dev_box_2_2023-11-14_22-13-20.log'' \<and>
   ''/Users/u/.macpine/cache/.error-logs/dev_box_2_2023-11-14_14-13-20.log'' \<noteq>
     ''/Users/u/.macpine/cache/.error-logs/'' @ errorLogNameUTC ''dev box 2'' (Now failingHost)"
proof -
  have run: "launchCloud (flagDefaults\<lparr>cloudInitCloud := ''ci.yaml'', machineNameCloud := ''dev box 2''\<rparr>)
       failingHost =
     Some (HostLaunch (machineConfig
              (flagDefaults\<lparr>cloudInitCloud := ''ci.yaml'', machineNameCloud := ''dev box 2'',
                 machineArch := ''aarch64'', machineName := ''quiet-otter''\<rparr>)
              ''/Users/u'' ''56:c8:38:5a:1f:07'') #
           launchFailed failingHost ''/Users/u'' (machineConfig
              (flagDefaults\<lparr>cloudInitCloud := ''ci.yaml'', machineNameCloud := ''dev box 2'',
                 machineArch := ''aarch64'', machineName := ''quiet-otter''\<rparr>)
              ''/Users/u'' ''56:c8:38:5a:1f:07''),
           LogFatal ''qemu exited'',
           flagDefaults\<lparr>cloudInitCloud := ''ci.yaml'', machineNameCloud := ''dev box 2'',
             machineArch := ''aarch64'', machineName := ''quiet-otter''\<rparr>)"
    by (rule launchCloud_failingHost) (simp_all add: flagDefaults_def)
  have name: "errorLogName ''dev box 2'' \<lparr>unixSec = 1700000000, zoneOffset = - 28800\<rparr> =
      ''dev_box_2_2023-11-14_14-13-20.log''"
    by (simp add: errorLogName_def Format_stamp_local ReplaceAll_char_def)
  have utc: "errorLogNameUTC ''dev box 2'' \<lparr>unixSec = 1700000000, zoneOffset = - 28800\<rparr> =
      ''dev_box_2_2023-11-14_22-13-20.log''"
    by (simp add: errorLogNameUTC_def Format_stamp_utc ReplaceAll_char_def)
  have j2: "Join [''/Users/u'', ''.macpine'', ''dev box 2''] = ''/Users/u/.macpine/dev box 2''"
    by (simp add: Join_def Clean_def)
  have j3: "Join [''/Users/u/.macpine/dev box 2'', ''alpine.log''] =
      ''/Users/u/.macpine/dev box 2/alpine.log''"
    by (simp add: Join_def Clean_def)
  have j4: "Join [''/Users/u'', ''.macpine'', ''cache'', ''.error-logs'',
                  ''dev_box_2_2023-11-14_14-13-20.log''] =
      ''/Users/u/.macpine/cache/.error-logs/dev_box_2_2023-11-14_14-13-20.log''"
    by (simp add: Join_def Clean_def)
  have "launchFailed failingHost ''/Users/u'' (machineConfig
              (flagDefaults\<lparr>cloudInitCloud := ''ci.yaml'', machineNameCloud := ''dev box 2'',
                 machineArch := ''aarch64'', machineName := ''quiet-otter''\<rparr>)
              ''/Users/u'' ''56:c8:38:5a:1f:07'') =
        [MkdirAll ''/Users/u/.macpine/cache/.error-logs'' 493,
            Rename ''/Users/u/.macpine/dev box 2/alpine.log''
                   ''/Users/u/.macpine/cache/.error-logs/dev_box_2_2023-11-14_14-13-20.log'',
            Println ''logs are in: /Users/u/.macpine/cache/.error-logs/dev_box_2_2023-11-14_14-13-20.log'',
            Println ''run this to clean up:'',
            Println ''rm -rf /Users/u/.macpine/dev box 2'',
            Println ''kill 4711'']"
    by (simp add: launchFailed_def Let_def machineConfig_def failingHost_fields name
        Join_error_log_dir j2 j3 j4 Itoa_4711)
  with run utc show ?thesis by (simp add: failingHost_fields)
qed

text \<open>
  Claim C8, amended. When \<open>host.Launch\<close> fails, the next two effects of the run are the
  creation of the directory \<open>.macpine/cache/.error-logs\<close> under the home directory and the
  request to rename \<open>alpine.log\<close> of the instance's location to the path that
  \<open>filepath.Join\<close> makes of the home directory, \<open>.macpine\<close>, \<open>cache\<close>, \<open>.error-logs\<close> and the
  file name. The file name is the alias with every space replaced by an underscore, then
  an underscore, then year (four digits), month, day, hour, minute and second (two digits
  each, hour from 0 to 23) separated as in \<open>2006-01-02_15-04-05\<close>, then \<open>.log\<close>. Date and time
  are those of the host's local zone: they are taken from the seconds since the epoch plus
  the zone offset. When the alias contains no slash, the target path is the file of that
  name directly in the error-log directory.
\<close>
theorem error_log_relocated:
  assumes "launchCloud g e = Some (effs, out, g')"
    and "HostLaunch cfg \<in> set effs"
    and "Launch e cfg = Some err"
    and "UserHomeDir e = Inr home"
  shows "(let local = unixSec (Now e) + zoneOffset (Now e);
              clock = local mod 86400;
              stamp = (case civil (local div 86400) of (year, month, day) \<Rightarrow>
                         appendInt year 4 @ ''-'' @ appendInt month 2 @ ''-'' @
                         appendInt day 2 @ ''_'' @ appendInt (clock div 3600) 2 @ ''-'' @
                         appendInt (clock mod 3600 div 60) 2 @ ''-'' @
                         appendInt (clock mod 60) 2);
              name = map (\<lambda>c. if c = CHR '' '' then CHR ''_'' else c) (Alias cfg) @
                     ''_'' @ stamp @ ''.log'';
              dir = Join [home, ''.macpine'', ''cache'', ''.error-logs''];
              target = Join [home, ''.macpine'', ''cache'', ''.error-logs'', name]
          in (\<exists>rest. effs =
                HostLaunch cfg # MkdirAll dir 493 #
                Rename (Join [Location cfg, ''alpine.log'']) target # rest) \<and>
             (CHR ''/'' \<notin> set (Alias cfg) \<longrightarrow> target = dir @ ''/'' @ name))"
proof -
  let ?name = "errorLogName (Alias cfg) (Now e)"
  from launchCloud_failed [OF assms]
  have "effs = HostLaunch cfg # launchFailed e home cfg" by simp
  then have first: "\<exists>rest. effs =
      HostLaunch cfg # MkdirAll (Join [home, ''.macpine'', ''cache'', ''.error-logs'']) 493 #
      Rename (Join [Location cfg, ''alpine.log''])
             (Join [home, ''.macpine'', ''cache'', ''.error-logs'', ?name]) # rest"
    by (simp add: launchFailed_def Let_def)
  have second: "CHR ''/'' \<notin> set (Alias cfg) \<longrightarrow>
      Join [home, ''.macpine'', ''cache'', ''.error-logs'', ?name] =
      Join [home, ''.macpine'', ''cache'', ''.error-logs''] @ ''/'' @ ?name"
  proof
    assume "CHR ''/'' \<notin> set (Alias cfg)"
    from Join_error_log_file [OF errorLogName_plain [OF this, of "Now e"], of home]
    show "Join [home, ''.macpine'', ''cache'', ''.error-logs'', ?name] =
      Join [home, ''.macpine'', ''cache'', ''.error-logs''] @ ''/'' @ ?name"
      by simp
  qed
  from first second have "(\<exists>rest. effs =
      HostLaunch cfg # MkdirAll (Join [home, ''.macpine'', ''cache'', ''.error-logs'']) 493 #
      Rename (Join [Location cfg, ''alpine.log''])
             (Join [home, ''.macpine'', ''cache'', ''.error-logs'', ?name]) # rest) \<and>
     (CHR ''/'' \<notin> set (Alias cfg) \<longrightarrow>
      Join [home, ''.macpine'', ''cache'', ''.error-logs'', ?name] =
      Join [home, ''.macpine'', ''cache'', ''.error-logs''] @ ''/'' @ ?name)"
    by (rule conjI)
  then show ?thesis
    unfolding errorLogName_unfold Let_def .
qed

theorem error_log_relocated_witness:
  "CHR ''/'' \<notin> set ''my test vm'' \<and>
   launchCloud (flagDefaults\<lparr>cloudInitCloud := ''ci.yaml'', machineNameCloud := ''my test vm''\<rparr>)
       failingHost =
     Some (HostLaunch (machineConfig
              (flagDefaults\<lparr>cloudInitCloud := ''ci.yaml'', machineNameCloud := ''my test vm'',
                 machineArch := ''aarch64'', machineName := ''quiet-otter''\<rparr>)
              ''/Users/u'' ''56:c8:38:5a:1f:07'') #
           launchFailed failingHost ''/Users/u'' (machineConfig
              (flagDefaults\<lparr>cloudInitCloud := ''ci.yaml'', machineNameCloud := ''my test vm'',
                 machineArch := ''aarch64'', machineName := ''quiet-otter''\<rparr>)
              ''/Users/u'' ''56:c8:38:5a:1f:07''),
           LogFatal ''qemu exited'',
           flagDefaults\<lparr>cloudInitCloud := ''ci.yaml'', machineNameCloud := ''my test vm'',
             machineArch := ''aarch64'', machineName := ''quiet-otter''\<rparr>) \<and>
   (\<exists>rest. launchFailed failingHost ''/Users/u'' (machineConfig
              (flagDefaults\<lparr>cloudInitCloud := ''ci.yaml'', machineNameCloud := ''my test vm'',
                 machineArch := ''aarch64'', machineName := ''quiet-otter''\<rparr>)
              ''/Users/u'' ''56:c8:38:5a:1f:07'') =
      MkdirAll ''/Users/u/.macpine/cache/.error-logs'' 493 #
      Rename ''/Users/u/.macpine/my test vm/alpine.log''
             ''/Users/u/.macpine/cache/.error-logs/my_test_vm_2023-11-14_14-13-20.log'' # rest)"
proof -
  let ?g = "flagDefaults\<lparr>cloudInitCloud := ''ci.yaml'', machineNameCloud := ''my test vm''\<rparr>"
  let ?g' = "flagDefaults\<lparr>cloudInitCloud := ''ci.yaml'', machineNameCloud := ''my test vm'',
                 machineArch := ''aarch64'', machineName := ''quiet-otter''\<rparr>"
  let ?c = "machineConfig ?g' ''/Users/u'' ''56:c8:38:5a:1f:07''"
  let ?effs = "HostLaunch ?c # launchFailed failingHost ''/Users/u'' ?c"
  have run: "launchCloud ?g failingHost = Some (?effs, LogFatal ''qemu exited'', ?g')"
    by (rule launchCloud_failingHost) (simp_all add: flagDefaults_def)
  have mem: "HostLaunch ?c \<in> set ?effs" by simp
  have j2: "Join [''/Users/u'', ''.macpine'', ''my test vm''] = ''/Users/u/.macpine/my test vm''"
    by (simp add: Join_def Clean_def)
  have j3: "Join [''/Users/u/.macpine/my test vm'', ''alpine.log''] =
      ''/Users/u/.macpine/my test vm/alpine.log''"
    by (simp add: Join_def Clean_def)
  have loc: "Location ?c = ''/Users/u/.macpine/my test vm''" and al: "Alias ?c = ''my test vm''"
    by (simp_all add: machineConfig_def j2)
  have plain: "CHR ''/'' \<notin> set ''my test vm''" by simp
  from error_log_relocated [OF run mem failingHost_fields(3) failingHost_fields(4)]
  have "(\<exists>rest. launchFailed failingHost ''/Users/u'' ?c =
      MkdirAll ''/Users/u/.macpine/cache/.error-logs'' 493 #
      Rename ''/Users/u/.macpine/my test vm/alpine.log''
             (Join [''/Users/u'', ''.macpine'', ''cache'', ''.error-logs'',
                    ''my_test_vm_2023-11-14_14-13-20.log'']) # rest) \<and>
     Join [''/Users/u'', ''.macpine'', ''cache'', ''.error-logs'',
           ''my_test_vm_2023-11-14_14-13-20.log''] =
     ''/Users/u/.macpine/cache/.error-logs/my_test_vm_2023-11-14_14-13-20.log''"
    by (simp (no_asm_use) add: Let_def loc al j3 failingHost_fields(1) civil_19675
        appendInt_values Join_error_log_dir)
  then obtain rest where
    r: "launchFailed failingHost ''/Users/u'' ?c =
      MkdirAll ''/Users/u/.macpine/cache/.error-logs'' 493 #
      Rename ''/Users/u/.macpine/my test vm/alpine.log''
             (Join [''/Users/u'', ''.macpine'', ''cache'', ''.error-logs'',
                    ''my_test_vm_2023-11-14_14-13-20.log'']) # rest"
    and j: "Join [''/Users/u'', ''.macpine'', ''cache'', ''.error-logs'',
           ''my_test_vm_2023-11-14_14-13-20.log''] =
     ''/Users/u/.macpine/cache/.error-logs/my_test_vm_2023-11-14_14-13-20.log''"
    by blast
  from r have "\<exists>rest. launchFailed failingHost ''/Users/u'' ?c =
      MkdirAll ''/Users/u/.macpine/cache/.error-logs'' 493 #
      Rename ''/Users/u/.macpine/my test vm/alpine.log''
             ''/Users/u/.macpine/cache/.error-logs/my_test_vm_2023-11-14_14-13-20.log'' # rest"
    unfolding j by (rule exI)
  with run plain show ?thesis by blast
qed




end
